theory Spec2Isabelle
  imports Complex_Main "HOL-Library.Sublist" "HOL-Library.Multiset"
begin

section \<open>Python strings and number formatting\<close>

text \<open>
  A Python \<open>str\<close> is modelled as a \<open>string\<close>, one \<open>char\<close> per code point (the model
  covers code points below 256, so \<open>length\<close> is Python's \<open>len\<close>). A finite Python
  \<open>float\<close> is modelled as the \<open>real\<close> it stands for: comparison with \<open>0\<close>, assignment
  of \<open>0.0\<close>, sorting, \<open>int()\<close> and the C function \<open>fmod\<close> are exact on finite floats;
  an addition, subtraction or division of floats is the exact result rounded to the
  nearest double (\<open>round_double\<close>). Where floats are only copied (the persisted
  transcript) NaN and the infinities are part of the model (\<open>pyfloat\<close>); where the code
  does arithmetic on a time or sorts by it, the time is a finite float.
\<close>

definition isspace :: "char \<Rightarrow> bool" where
  \<comment> \<open>\<open>str.isspace\<close> on one character: TAB, LF, VT, FF, CR, FS, GS, RS, US, SPACE, NEL, NBSP\<close>
  "isspace c = (c \<in> set [CHR 0x09, CHR 0x0A, CHR 0x0B, CHR 0x0C, CHR 0x0D,
                           CHR 0x1C, CHR 0x1D, CHR 0x1E, CHR 0x1F, CHR 0x20, CHR 0x85, CHR 0xA0])"

definition lstrip :: "string \<Rightarrow> string" where
  "lstrip s = dropWhile isspace s"

definition rstrip :: "string \<Rightarrow> string" where
  "rstrip s = rev (dropWhile isspace (rev s))"

definition strip :: "string \<Rightarrow> string" where
  \<comment> \<open>\<open>str.strip()\<close> with no argument\<close>
  "strip s = rstrip (lstrip s)"

fun join :: "string \<Rightarrow> string list \<Rightarrow> string" where
  \<comment> \<open>\<open>sep.join(items)\<close>\<close>
  "join sep [] = []"
| "join sep [x] = x"
| "join sep (x # y # ys) = x @ sep @ join sep (y # ys)"

definition digit_char :: "nat \<Rightarrow> char" where
  "digit_char d = ''0123456789'' ! d"

fun digits_nat :: "nat \<Rightarrow> string" where
  "digits_nat n = (if n < 10 then [digit_char n]
                   else digits_nat (n div 10) @ [digit_char (n mod 10)])"

declare digits_nat.simps [simp del]

definition str_int :: "int \<Rightarrow> string" where
  \<comment> \<open>\<open>str(i)\<close>, also the format spec \<open>{i}\<close> of an int\<close>
  "str_int i = (if i < 0 then ''-'' @ digits_nat (nat (- i)) else digits_nat (nat i))"

definition zfill :: "nat \<Rightarrow> string \<Rightarrow> string" where
  "zfill w s = replicate (w - length s) (CHR ''0'') @ s"

definition fmt_02d :: "int \<Rightarrow> string" where
  \<comment> \<open>the format spec \<open>{i:02d}\<close>: sign first, then zeros up to a total width of 2\<close>
  "fmt_02d i = (if i < 0 then ''-'' @ zfill 1 (digits_nat (nat (- i)))
                else zfill 2 (digits_nat (nat i)))"

definition py_int :: "real \<Rightarrow> int" where
  \<comment> \<open>\<open>int(x)\<close> of a float: truncation towards zero\<close>
  "py_int x = (if 0 \<le> x then \<lfloor>x\<rfloor> else - \<lfloor>- x\<rfloor>)"

definition pow2 :: "int \<Rightarrow> real" where
  \<comment> \<open>the power of two with an integer exponent\<close>
  "pow2 e = (if 0 \<le> e then 2 ^ nat e else 1 / 2 ^ nat (- e))"

definition round_half_even :: "real \<Rightarrow> int" where
  \<comment> \<open>the nearest integer, a tie going to the even one\<close>
  "round_half_even y =
     (let f = \<lfloor>y\<rfloor>; r = y - of_int f
      in if r < 1 / 2 then f else if 1 / 2 < r then f + 1 else if even f then f else f + 1)"

definition round_double :: "real \<Rightarrow> real" where
  \<comment> \<open>IEEE 754 binary64, round to nearest, ties to even: 53 significant bits, exponent
      of the leading bit at least -1022; a result beyond the largest double is outside
      the model\<close>
  "round_double x =
     (if x = 0 then 0
      else let e = max (- 1022) \<lfloor>log 2 \<bar>x\<bar>\<rfloor>; u = pow2 (e - 52)
           in of_int (round_half_even (x / u)) * u)"

definition c_fmod :: "real \<Rightarrow> real \<Rightarrow> real" where
  \<comment> \<open>C \<open>fmod(x, y)\<close> for \<open>y \<noteq> 0\<close>: exact, with the sign of \<open>x\<close>\<close>
  "c_fmod x y = x - y * of_int (py_int (x / y))"

definition float_mod :: "real \<Rightarrow> real \<Rightarrow> real" where
  \<comment> \<open>\<open>x % y\<close> on floats for \<open>y \<noteq> 0\<close> (CPython \<open>float_rem\<close>)\<close>
  "float_mod x y =
     (let m = c_fmod x y
      in if m \<noteq> 0
         then (if (y < 0) \<noteq> (m < 0) then round_double (m + y) else m)
         else 0)"

definition float_floordiv :: "real \<Rightarrow> real \<Rightarrow> real" where
  \<comment> \<open>\<open>x // y\<close> on floats for \<open>y \<noteq> 0\<close> (CPython \<open>_float_div_mod\<close>)\<close>
  "float_floordiv x y =
     (let m = c_fmod x y;
          d = round_double (round_double (x - m) / y);
          d' = (if m \<noteq> 0 \<and> (y < 0) \<noteq> (m < 0) then round_double (d - 1) else d)
      in if d' \<noteq> 0
         then (let f = of_int \<lfloor>d'\<rfloor>
               in if round_double (d' - f) > 1 / 2 then round_double (f + 1) else f)
         else 0)"

section \<open>JSON extraction (generators.py, \<open>_extract_json\<close>)\<close>

text \<open>
  \<open>re.search(r"\[[\s\S]*\]", text)\<close>: the pattern is tried at each position from the left.
  At a position it needs \<open>[\<close>, then \<open>[\s\S]*\<close> takes as many characters as it can (any
  character matches, newlines too) and gives characters back one at a time until \<open>]\<close>
  matches.
\<close>

fun match_star_close :: "string \<Rightarrow> string option" where
  \<comment> \<open>the greedy \<open>[\s\S]*\]\<close> at the head of the input: the text matched, if any\<close>
  "match_star_close [] = None"
| "match_star_close (c # cs) =
     (case match_star_close cs of
        Some m \<Rightarrow> Some (c # m)
      | None \<Rightarrow> if c = CHR '']'' then Some [c] else None)"

fun match_at :: "string \<Rightarrow> string option" where
  \<comment> \<open>the whole pattern anchored at the head of the input\<close>
  "match_at [] = None"
| "match_at (c # cs) =
     (if c = CHR ''['' then (case match_star_close cs of
                                None \<Rightarrow> None
                              | Some m \<Rightarrow> Some (c # m))
      else None)"

fun re_search :: "string \<Rightarrow> string option" where
  \<comment> \<open>\<open>re.search\<close>: the match at the leftmost position that has one\<close>
  "re_search [] = match_at []"
| "re_search (c # cs) =
     (case match_at (c # cs) of
        Some m \<Rightarrow> Some m
      | None \<Rightarrow> re_search cs)"

definition extract_json :: "string \<Rightarrow> string" where
  "extract_json text = (case re_search text of Some m \<Rightarrow> m | None \<Rightarrow> text)"

definition example_response :: string where
  \<open>example_response =
     ''Here you go:'' @ [CHR 0x0A] @ ''[{"title":"A"}]'' @ [CHR 0x0A] @ ''Hope that helps''\<close>

section \<open>Data model (models.py)\<close>

text \<open>
  The transcript records take the representation of their floats as a parameter:
  \<open>real\<close> for transcripts with finite times, on which the prompt formatter computes,
  \<open>pyfloat\<close> for the transcripts that the writer and the loader copy.
\<close>

datatype pyfloat = Finite real | NaN | PosInf | NegInf

record 'f TranscriptSegment =
  seg_start :: 'f
  seg_end :: 'f
  seg_text :: string

record 'f WordTimestamp =
  word :: string
  word_start :: 'f
  word_end :: 'f
  probability :: 'f

record 'f Transcript =
  segments :: "'f TranscriptSegment list"
  words :: "'f WordTimestamp list"
  language :: string
  duration :: 'f

definition full_text :: "'f Transcript \<Rightarrow> string" where
  "full_text t = join '' '' (map (\<lambda>seg. strip (seg_text seg)) (segments t))"

record Chapter =
  start_time :: real
  ch_title :: string
  ch_description :: string

definition timestamp :: "Chapter \<Rightarrow> string" where
  "timestamp c =
     (let total_seconds = py_int (start_time c);
          hours = total_seconds div 3600;
          minutes = (total_seconds mod 3600) div 60;
          seconds = total_seconds mod 60
      in if hours > 0
         then fmt_02d hours @ '':'' @ fmt_02d minutes @ '':'' @ fmt_02d seconds
         else fmt_02d minutes @ '':'' @ fmt_02d seconds)"

definition to_youtube_format :: "Chapter \<Rightarrow> string" where
  "to_youtube_format c =
     (if ch_description c \<noteq> []
      then timestamp c @ '' '' @ ch_title c @ '' - '' @ ch_description c
      else timestamp c @ '' '' @ ch_title c)"

record Title =
  title :: string
  thumbnail_text :: string
  reasoning :: string

record GeneratedContent =
  description :: string
  titles :: "Title list"
  chapters :: "Chapter list"

section \<open>Prompt formatting (generators.py)\<close>

definition timestamp_line :: "real TranscriptSegment \<Rightarrow> string" where
  \<comment> \<open>the body of the loop of \<open>_format_transcript_with_timestamps\<close>\<close>
  "timestamp_line segment =
     (let minutes = py_int (float_floordiv (seg_start segment) 60);
          seconds = py_int (float_mod (seg_start segment) 60);
          ts = ''['' @ fmt_02d minutes @ '':'' @ fmt_02d seconds @ '']''
      in ts @ '' '' @ strip (seg_text segment))"

definition format_transcript_with_timestamps :: "real Transcript \<Rightarrow> string" where
  "format_transcript_with_timestamps transcript =
     join [CHR 0x0A] (map timestamp_line (segments transcript))"

definition truncation_marker :: string where
  "truncation_marker = [CHR 0x0A, CHR 0x0A] @ ''[... transcript truncated for length ...]''"

definition truncate_transcript :: "'f Transcript \<Rightarrow> nat \<Rightarrow> string" where
  "truncate_transcript transcript max_chars =
     (let ft = full_text transcript
      in if length ft \<le> max_chars then ft else take max_chars ft @ truncation_marker)"

section \<open>Chapter normalization (generators.py, \<open>generate_chapters\<close>)\<close>

text \<open>
  \<open>chapters.sort(key=lambda c: c.start_time)\<close> is a stable sort; \<open>sort_key\<close> is the stable
  insertion sort, and a stable sort has one possible result. The clamp is the assignment
  \<open>chapters[0].start_time = 0.0\<close> under its guard.
\<close>

definition sort_and_clamp :: "Chapter list \<Rightarrow> Chapter list" where
  "sort_and_clamp cs =
     (let chapters = sort_key start_time cs
      in if chapters \<noteq> [] \<and> start_time (chapters ! 0) > 0
         then chapters[0 := (chapters ! 0)\<lparr>start_time := 0\<rparr>]
         else chapters)"

section \<open>Prompt templates (prompts.py)\<close>

abbreviation NL :: string where
  "NL \<equiv> [CHR 0x0A]"

definition description_prompt :: "string \<Rightarrow> string" where
  \<comment> \<open>\<open>DESCRIPTION_PROMPT.format(...)\<close>\<close>
  \<open>description_prompt transcript = concat
     [''You are an expert YouTube content strategist. Create an engaging YouTube description for this podcast episode.'', NL,
      NL,
      ''TRANSCRIPT:'', NL,
      transcript, NL,
      NL,
      ''Create a YouTube description with these sections:'', NL,
      ''1. **Hook** (2-3 compelling sentences that grab attention and create curiosity)'', NL,
      ''2. **Summary** (3-5 bullet points covering the main topics/takeaways)'', NL,
      ''3. **Call to Action** (subscribe, like, comment prompt)'', NL,
      NL,
      ''Guidelines:'', NL,
      ''- Write in an engaging, conversational tone'', NL,
      ''- Include relevant keywords naturally for SEO'', NL,
      ''- Keep the total description under 500 words'', NL,
      ''- Use line breaks for readability'', NL,
      ''- Don'', [CHR 0x27], ''t use hashtags (those go separately)'', NL,
      NL,
      ''Output ONLY the description text, no additional commentary.'']\<close>

definition titles_prompt :: "string \<Rightarrow> string" where
  \<comment> \<open>\<open>TITLES_PROMPT.format(...)\<close>\<close>
  \<open>titles_prompt transcript = concat
     [''You are a viral YouTube title expert. Generate 10 compelling title variations for this podcast episode.'', NL,
      NL,
      ''TRANSCRIPT:'', NL,
      transcript, NL,
      NL,
      ''For each title, provide:'', NL,
      ''1. The title (under 60 characters for full display)'', NL,
      ''2. Thumbnail text (2-4 words that would overlay on a thumbnail)'', NL,
      ''3. Brief reasoning for why this title works'', NL,
      NL,
      ''Use these proven title formulas:'', NL,
      ''- Curiosity gap ("I Tried X for 30 Days...")'', NL,
      ''- Contrarian take ("Why X is Actually Wrong")'', NL,
      ''- How-to with benefit ("How to X (Without Y)")'', NL,
      ''- List format ("5 Things...")'', NL,
      ''- Story hook ("The Day I Realized...")'', NL,
      ''- Question format ("Is X Really Worth It?")'', NL,
      ''- Urgency/Warning ("Stop Doing X Before...")'', NL,
      NL,
      ''Output as valid JSON array with this structure:'', NL,
      ''['', NL,
      ''  {'', NL,
      ''    "title": "The video title here",'', NL,
      ''    "thumbnail_text": "SHORT TEXT",'', NL,
      ''    "reasoning": "Why this works"'', NL,
      ''  }'', NL,
      '']'', NL,
      NL,
      ''Generate exactly 10 unique titles with different approaches. Output ONLY the JSON array.'']\<close>

definition chapters_prompt :: "string \<Rightarrow> string \<Rightarrow> string" where
  \<comment> \<open>\<open>CHAPTERS_PROMPT.format(...)\<close>\<close>
  \<open>chapters_prompt transcript_with_timestamps chapter_count = concat
     [''You are a podcast editor creating YouTube chapters. Analyze this transcript and identify the major topic transitions.'', NL,
      NL,
      ''TRANSCRIPT WITH TIMESTAMPS:'', NL,
      transcript_with_timestamps, NL,
      NL,
      ''REQUIREMENTS:'', NL,
      ''- Create '', chapter_count, '' chapters that cover the full episode'', NL,
      ''- First chapter must start at 00:00'', NL,
      ''- Each chapter should represent a distinct topic or segment'', NL,
      ''- Titles should be concise (2-6 words) and descriptive'', NL,
      ''- Align chapter starts to natural topic transitions in the transcript'', NL,
      NL,
      ''Output as valid JSON array with this structure:'', NL,
      ''['', NL,
      ''  {'', NL,
      ''    "start_time": 0.0,'', NL,
      ''    "title": "Introduction",'', NL,
      ''    "description": "Welcome and episode overview"'', NL,
      ''  },'', NL,
      ''  {'', NL,
      ''    "start_time": 154.5,'', NL,
      ''    "title": "Main Topic",'', NL,
      ''    "description": "Discussion of the core subject"'', NL,
      ''  }'', NL,
      '']'', NL,
      NL,
      ''Use the actual timestamps from the transcript. Output ONLY the JSON array.'']\<close>

section \<open>Collaborators: JSON values, the libraries, the generation client\<close>

datatype json =
    JNull
  | JBool bool
  | JInt int
  | JFloat pyfloat
  | JStr string
  | JArr "json list"
  | JObj "(string \<times> json) list"

text \<open>
  A \<open>JInt\<close> is a Python \<open>int\<close>, a \<open>JFloat\<close> a Python \<open>float\<close>. A \<open>JObj\<close> stands for the
  \<open>dict\<close> that \<open>json.loads\<close> builds; a key is looked up with \<open>map_of\<close>. The exceptions
  of the file operations, and the exceptions that can leave the generators and the
  commands:
\<close>

datatype io_error = FileExistsError | FileNotFoundError | IsADirectoryError | NotADirectoryError

datatype error =
    LLMError string
  | GenerationError string
  | TypeError
  | AttributeError
  | ValidationError
  | OtherError string
  | OSError io_error
  | Exit

text \<open>
  The libraries the generators call are parameters of the model: \<open>json.loads\<close> (\<open>Inl\<close>
  carries the text of the \<open>JSONDecodeError\<close>) and the validation that pydantic applies
  to a \<open>str\<close> field and to a \<open>float\<close> field (\<open>None\<close>: the value is rejected).
\<close>

record pylib =
  json_loads :: "string \<Rightarrow> string + json"
  validate_str :: "json \<Rightarrow> string option"
  validate_float :: "json \<Rightarrow> real option"

text \<open>
  The generation client is a state transformer: from its state, a prompt and a temperature
  it returns the generated text or raises. The world of a run holds the client's state and
  the list of the calls made so far, oldest first.
\<close>

type_synonym 's client = "'s \<Rightarrow> string \<Rightarrow> real \<Rightarrow> (error + string) \<times> 's"

record 's world =
  calls :: "(string \<times> real) list"
  client_state :: "'s"

definition call_generate ::
  "'s client \<Rightarrow> string \<Rightarrow> real \<Rightarrow> 's world \<Rightarrow> (error + string) \<times> 's world" where
  \<comment> \<open>\<open>client.generate(prompt, temperature=...)\<close>\<close>
  "call_generate client prompt temperature w =
     (case client (client_state w) prompt temperature of
        (r, s') \<Rightarrow> (r, \<lparr>calls = calls w @ [(prompt, temperature)], client_state = s'\<rparr>))"

section \<open>Parsing the responses (generators.py)\<close>

fun py_iter :: "json \<Rightarrow> error + json list" where
  \<comment> \<open>\<open>for t in data\<close>: a list gives its items, a dict its keys, a string its characters\<close>
  "py_iter (JArr xs) = Inr xs"
| "py_iter (JObj kvs) = Inr (map (\<lambda>kv. JStr (fst kv)) kvs)"
| "py_iter (JStr s) = Inr (map (\<lambda>c. JStr [c]) s)"
| "py_iter JNull = Inl TypeError"
| "py_iter (JBool b) = Inl TypeError"
| "py_iter (JInt i) = Inl TypeError"
| "py_iter (JFloat x) = Inl TypeError"

fun py_get :: "json \<Rightarrow> string \<Rightarrow> json \<Rightarrow> error + json" where
  \<comment> \<open>\<open>t.get(key, default)\<close>: only a dict has the method\<close>
  "py_get (JObj kvs) key dflt = Inr (case map_of kvs key of Some v \<Rightarrow> v | None \<Rightarrow> dflt)"
| "py_get JNull key dflt = Inl AttributeError"
| "py_get (JBool b) key dflt = Inl AttributeError"
| "py_get (JInt i) key dflt = Inl AttributeError"
| "py_get (JFloat x) key dflt = Inl AttributeError"
| "py_get (JStr s) key dflt = Inl AttributeError"
| "py_get (JArr xs) key dflt = Inl AttributeError"

fun emap :: "('a \<Rightarrow> error + 'b) \<Rightarrow> 'a list \<Rightarrow> error + 'b list" where
  \<comment> \<open>a list comprehension whose body may raise: the first exception ends it\<close>
  "emap f [] = Inr []"
| "emap f (x # xs) =
     (case f x of
        Inl e \<Rightarrow> Inl e
      | Inr y \<Rightarrow> (case emap f xs of Inl e \<Rightarrow> Inl e | Inr ys \<Rightarrow> Inr (y # ys)))"

definition make_title :: "pylib \<Rightarrow> json \<Rightarrow> error + Title" where
  "make_title lib t =
     (case py_get t ''title'' (JStr []) of Inl e \<Rightarrow> Inl e | Inr a \<Rightarrow>
      case py_get t ''thumbnail_text'' (JStr []) of Inl e \<Rightarrow> Inl e | Inr b \<Rightarrow>
      case py_get t ''reasoning'' (JStr []) of Inl e \<Rightarrow> Inl e | Inr c \<Rightarrow>
      case (validate_str lib a, validate_str lib b, validate_str lib c) of
        (Some x, Some y, Some z) \<Rightarrow> Inr \<lparr>title = x, thumbnail_text = y, reasoning = z\<rparr>
      | _ \<Rightarrow> Inl ValidationError)"

definition make_chapter :: "pylib \<Rightarrow> json \<Rightarrow> error + Chapter" where
  "make_chapter lib c =
     (case py_get c ''start_time'' (JFloat (Finite 0)) of Inl e \<Rightarrow> Inl e | Inr a \<Rightarrow>
      case py_get c ''title'' (JStr []) of Inl e \<Rightarrow> Inl e | Inr b \<Rightarrow>
      case py_get c ''description'' (JStr []) of Inl e \<Rightarrow> Inl e | Inr d \<Rightarrow>
      case (validate_float lib a, validate_str lib b, validate_str lib d) of
        (Some x, Some y, Some z) \<Rightarrow> Inr \<lparr>start_time = x, ch_title = y, ch_description = z\<rparr>
      | _ \<Rightarrow> Inl ValidationError)"

definition parse_titles :: "pylib \<Rightarrow> string \<Rightarrow> error + Title list" where
  \<comment> \<open>the \<open>try\<close> block of \<open>generate_titles\<close> with its \<open>except json.JSONDecodeError\<close>\<close>
  "parse_titles lib response =
     (case json_loads lib (extract_json response) of
        Inl e \<Rightarrow> Inl (GenerationError
                   (''Failed to parse titles JSON: '' @ e @ NL @ ''Response: '' @ response))
      | Inr titles_data \<Rightarrow>
          (case py_iter titles_data of
             Inl err \<Rightarrow> Inl err
           | Inr items \<Rightarrow> emap (make_title lib) items))"

definition parse_chapters :: "pylib \<Rightarrow> string \<Rightarrow> error + Chapter list" where
  \<comment> \<open>the \<open>try\<close> block of \<open>generate_chapters\<close> with its \<open>except json.JSONDecodeError\<close>\<close>
  "parse_chapters lib response =
     (case json_loads lib (extract_json response) of
        Inl e \<Rightarrow> Inl (GenerationError
                   (''Failed to parse chapters JSON: '' @ e @ NL @ ''Response: '' @ response))
      | Inr chapters_data \<Rightarrow>
          (case py_iter chapters_data of
             Inl err \<Rightarrow> Inl err
           | Inr items \<Rightarrow>
               (case emap (make_chapter lib) items of
                  Inl err \<Rightarrow> Inl err
                | Inr chs \<Rightarrow> Inr (sort_and_clamp chs))))"

section \<open>The generators (generators.py)\<close>

definition generate_description ::
  "'s client \<Rightarrow> 'f Transcript \<Rightarrow> 's world \<Rightarrow> (error + string) \<times> 's world" where
  "generate_description client transcript w =
     (let prompt = description_prompt (truncate_transcript transcript 50000)
      in case call_generate client prompt 0.7 w of
           (Inl e, w') \<Rightarrow> (Inl e, w')
         | (Inr response, w') \<Rightarrow> (Inr (strip response), w'))"

definition generate_titles ::
  "pylib \<Rightarrow> 's client \<Rightarrow> 'f Transcript \<Rightarrow> 's world \<Rightarrow> (error + Title list) \<times> 's world" where
  "generate_titles lib client transcript w =
     (let prompt = titles_prompt (truncate_transcript transcript 50000)
      in case call_generate client prompt 0.8 w of
           (Inl e, w') \<Rightarrow> (Inl e, w')
         | (Inr response, w') \<Rightarrow> (parse_titles lib response, w'))"

definition chapter_transcript :: "real Transcript \<Rightarrow> string" where
  \<comment> \<open>the annotated transcript of \<open>generate_chapters\<close>, cut at 50000 characters\<close>
  "chapter_transcript transcript =
     (let transcript_with_ts = format_transcript_with_timestamps transcript
      in if length transcript_with_ts > 50000
         then take 50000 transcript_with_ts @ truncation_marker
         else transcript_with_ts)"

definition generate_chapters ::
  "pylib \<Rightarrow> 's client \<Rightarrow> real Transcript \<Rightarrow> int \<Rightarrow> 's world
     \<Rightarrow> (error + Chapter list) \<times> 's world" where
  "generate_chapters lib client transcript chapter_count w =
     (let prompt = chapters_prompt (chapter_transcript transcript) (str_int chapter_count)
      in case call_generate client prompt 0.5 w of
           (Inl e, w') \<Rightarrow> (Inl e, w')
         | (Inr response, w') \<Rightarrow> (parse_chapters lib response, w'))"

definition generate_all_content ::
  "pylib \<Rightarrow> 's client \<Rightarrow> real Transcript \<Rightarrow> int \<Rightarrow> 's world
     \<Rightarrow> (error + GeneratedContent) \<times> 's world" where
  "generate_all_content lib client transcript chapter_count w =
     (case generate_description client transcript w of
        (Inl e, w1) \<Rightarrow> (Inl e, w1)
      | (Inr d, w1) \<Rightarrow>
          (case generate_titles lib client transcript w1 of
             (Inl e, w2) \<Rightarrow> (Inl e, w2)
           | (Inr ts, w2) \<Rightarrow>
               (case generate_chapters lib client transcript chapter_count w2 of
                  (Inl e, w3) \<Rightarrow> (Inl e, w3)
                | (Inr cs, w3) \<Rightarrow>
                    (Inr \<lparr>description = d, titles = ts, chapters = cs\<rparr>, w3))))"

section \<open>Sample collaborators for concrete runs\<close>

definition sample_lib :: pylib where
  \<comment> \<open>a library that reads two JSON texts and rejects every other text\<close>
  \<open>sample_lib =
     \<lparr>json_loads = (\<lambda>s. if s = ''[]'' then Inr (JArr [])
                         else if s = ''[{"title":"A"}]'' then Inr (JArr [JObj [(''title'', JStr ''A'')]])
                         else Inl ''Expecting value: line 1 column 1 (char 0)''),
      validate_str = (\<lambda>v. case v of JStr s \<Rightarrow> Some s | _ \<Rightarrow> None),
      validate_float = (\<lambda>v. case v of JFloat (Finite x) \<Rightarrow> Some x | _ \<Rightarrow> None)\<rparr>\<close>



section \<open>Serialising the models (pydantic \<open>model_dump\<close> and \<open>model_validate\<close>)\<close>





definition float_field :: "pylib \<Rightarrow> json \<Rightarrow> pyfloat option" where
  "float_field lib v =
     (case v of JFloat x \<Rightarrow> Some x | _ \<Rightarrow> map_option Finite (validate_float lib v))"

definition str_field :: "pylib \<Rightarrow> json \<Rightarrow> string option" where
  "str_field lib v = (case v of JStr s \<Rightarrow> Some s | _ \<Rightarrow> validate_str lib v)"

definition segment_validate :: "pylib \<Rightarrow> json \<Rightarrow> pyfloat TranscriptSegment option" where
  "segment_validate lib v =
     (case v of
        JObj kvs \<Rightarrow>
          (case (map_of kvs ''start'', map_of kvs ''end'', map_of kvs ''text'') of
             (Some a, Some b, Some c) \<Rightarrow>
               (case (float_field lib a, float_field lib b, str_field lib c) of
                  (Some x, Some y, Some z) \<Rightarrow> Some \<lparr>seg_start = x, seg_end = y, seg_text = z\<rparr>
                | _ \<Rightarrow> None)
           | _ \<Rightarrow> None)
      | _ \<Rightarrow> None)"

definition word_validate :: "pylib \<Rightarrow> json \<Rightarrow> pyfloat WordTimestamp option" where
  "word_validate lib v =
     (case v of
        JObj kvs \<Rightarrow>
          (case (map_of kvs ''word'', map_of kvs ''start'', map_of kvs ''end'',
                 map_of kvs ''probability'') of
             (Some a, Some b, Some c, Some d) \<Rightarrow>
               (case (str_field lib a, float_field lib b, float_field lib c,
                      float_field lib d) of
                  (Some x, Some y, Some z, Some p) \<Rightarrow>
                    Some \<lparr>word = x, word_start = y, word_end = z, probability = p\<rparr>
                | _ \<Rightarrow> None)
           | _ \<Rightarrow> None)
      | _ \<Rightarrow> None)"

definition list_validate :: "(json \<Rightarrow> 'a option) \<Rightarrow> json \<Rightarrow> 'a list option" where
  "list_validate f v = (case v of JArr xs \<Rightarrow> those (map f xs) | _ \<Rightarrow> None)"

definition transcript_validate :: "pylib \<Rightarrow> json \<Rightarrow> error + pyfloat Transcript" where
  "transcript_validate lib data =
     (case data of
        JObj kvs \<Rightarrow>
          (case (case map_of kvs ''segments'' of
                   None \<Rightarrow> Some [] | Some v \<Rightarrow> list_validate (segment_validate lib) v,
                 case map_of kvs ''words'' of
                   None \<Rightarrow> Some [] | Some v \<Rightarrow> list_validate (word_validate lib) v,
                 case map_of kvs ''language'' of
                   None \<Rightarrow> Some ''en'' | Some v \<Rightarrow> str_field lib v,
                 case map_of kvs ''duration'' of
                   None \<Rightarrow> Some (Finite 0) | Some v \<Rightarrow> float_field lib v) of
             (Some a, Some b, Some c, Some d) \<Rightarrow>
               Inr \<lparr>segments = a, words = b, language = c, duration = d\<rparr>
           | _ \<Rightarrow> Inl ValidationError)
      | _ \<Rightarrow> Inl ValidationError)"

section \<open>The output writer (cli.py, \<open>_save_outputs\<close>) and the transcript loader\<close>

text \<open>
  A path is the list of its components. The file system holds the directories and the
  contents of the files. \<open>mkdir(parents=True, exist_ok=True)\<close> adds the directory and
  its missing ancestors; it fails with \<open>FileExistsError\<close> when the path is a file and with
  \<open>NotADirectoryError\<close> when an ancestor is a file. \<open>open(path, "w")\<close> followed by the
  writes replaces or creates the file; it fails when the path is a directory, when an
  ancestor is a file, and when the parent directory is missing. An operation returns the
  error it raised, if any, and the file system it left.
\<close>

type_synonym path = "string list"

record fs =
  dirs :: "path set"
  files :: "path \<rightharpoonup> string"








definition load_transcript :: "pylib \<Rightarrow> path \<Rightarrow> fs \<Rightarrow> error + pyfloat Transcript" where
  \<comment> \<open>the \<open>generate\<close> command: the existence check, \<open>open\<close>, \<open>json.load\<close>,
      \<open>model_validate\<close>; a missing path and a \<open>JSONDecodeError\<close> both end in
      \<open>typer.Exit(1)\<close>, the error of opening a directory is not caught\<close>
  "load_transcript lib transcript_file s =
     (if transcript_file \<notin> dirs s \<and> files s transcript_file = None then Inl Exit
      else if transcript_file \<in> dirs s then Inl (OSError IsADirectoryError)
      else (case files s transcript_file of
              None \<Rightarrow> Inl Exit
            | Some text \<Rightarrow>
                (case json_loads lib text of
                   Inl e \<Rightarrow> Inl Exit
                 | Inr transcript_data \<Rightarrow> transcript_validate lib transcript_data)))"





section \<open>Specification-side notions\<close>

definition two_digits :: "nat \<Rightarrow> string" where
  \<comment> \<open>a number below 100 written with exactly two decimal digits\<close>
  "two_digits n = [digit_char (n div 10), digit_char (n mod 10)]"

fun space_joined :: "string list \<Rightarrow> string" where
  \<comment> \<open>the items in order, a single space between neighbours\<close>
  "space_joined [] = []"
| "space_joined (x # xs) = foldl (\<lambda>acc y. acc @ '' '' @ y) x xs"

definition is_trimmed_of :: "string \<Rightarrow> string \<Rightarrow> bool" where
  \<comment> \<open>\<open>t\<close> is \<open>s\<close> without its leading and trailing whitespace\<close>
  "is_trimmed_of t s =
     (s = takeWhile isspace s @ t @ rev (takeWhile isspace (rev (dropWhile isspace s)))
      \<and> (t = [] \<or> (\<not> isspace (hd t) \<and> \<not> isspace (last t))))"

fun line_joined :: "string list \<Rightarrow> string" where
  \<comment> \<open>the items in order, one per line: a newline between neighbours\<close>
  "line_joined [] = []"
| "line_joined (x # xs) = foldl (\<lambda>acc y. acc @ [CHR 0x0A] @ y) x xs"

section \<open>Properties of JSON extraction\<close>

lemma match_star_close_no_close:
  "CHR '']'' \<notin> set s \<Longrightarrow> match_star_close s = None"
  by (induction s) auto

lemma match_star_close_last:
  "CHR '']'' \<notin> set post \<Longrightarrow> match_star_close (mid @ CHR '']'' # post) = Some (mid @ [CHR '']''])"
  by (induction mid) (auto simp: match_star_close_no_close)

lemma match_star_close_Some:
  "match_star_close s = Some m \<Longrightarrow> \<exists>mid post. s = mid @ CHR '']'' # post \<and> m = mid @ [CHR '']'']"
proof (induction s arbitrary: m)
  case Nil
  then show ?case by simp
next
  case (Cons c cs)
  show ?case
  proof (cases "match_star_close cs")
    case None
    with Cons.prems have "c = CHR '']''" and "m = [c]"
      by (auto split: if_splits)
    then have "c # cs = [] @ CHR '']'' # cs \<and> m = [] @ [CHR '']'']" by simp
    then show ?thesis by blast
  next
    case (Some m')
    with Cons.prems have m: "m = c # m'" by simp
    from Cons.IH [OF Some] obtain mid post
      where "cs = mid @ CHR '']'' # post" and "m' = mid @ [CHR '']'']" by blast
    with m have "c # cs = (c # mid) @ CHR '']'' # post \<and> m = (c # mid) @ [CHR '']'']" by simp
    then show ?thesis by blast
  qed
qed

lemma re_search_skip:
  "CHR ''['' \<notin> set pre \<Longrightarrow> re_search (pre @ s) = re_search s"
  by (induction pre) auto

lemma re_search_span:
  assumes "CHR ''['' \<notin> set pre" and "CHR '']'' \<notin> set post"
  shows "re_search (pre @ CHR ''['' # mid @ CHR '']'' # post) = Some (CHR ''['' # mid @ [CHR '']''])"
  using assms by (simp add: re_search_skip match_star_close_last)

lemma re_search_Some:
  "re_search s = Some m \<Longrightarrow>
     \<exists>pre mid post. s = pre @ CHR ''['' # mid @ CHR '']'' # post \<and> m = CHR ''['' # mid @ [CHR '']'']
        \<and> CHR ''['' \<notin> set pre \<and> CHR '']'' \<notin> set post"
proof (induction s)
  case Nil
  then show ?case by simp
next
  case (Cons c cs)
  show ?case
  proof (cases "match_at (c # cs)")
    case None
    then have c: "c \<noteq> CHR ''['' \<or> match_star_close cs = None"
      by (auto split: if_splits option.splits)
    from None Cons.prems have "re_search cs = Some m" by simp
    from Cons.IH [OF this] obtain pre mid post
      where cs: "cs = pre @ CHR ''['' # mid @ CHR '']'' # post"
        and m: "m = CHR ''['' # mid @ [CHR '']'']"
        and pre: "CHR ''['' \<notin> set pre" and post: "CHR '']'' \<notin> set post" by blast
    have "match_star_close cs = Some (pre @ CHR ''['' # mid @ [CHR '']''])"
      using match_star_close_last [OF post, of "pre @ CHR ''['' # mid"] cs by simp
    with c have "c \<noteq> CHR ''[''" by simp
    with cs m pre post
    have "c # cs = (c # pre) @ CHR ''['' # mid @ CHR '']'' # post \<and> m = CHR ''['' # mid @ [CHR '']'']
        \<and> CHR ''['' \<notin> set (c # pre) \<and> CHR '']'' \<notin> set post" by simp
    then show ?thesis by blast
  next
    case (Some m')
    with Cons.prems have mm: "m' = m" by simp
    from Some have c: "c = CHR ''[''"
      by (auto split: if_splits)
    with Some mm obtain r where r: "match_star_close cs = Some r" and mr: "m = c # r"
      by (auto split: option.splits)
    from match_star_close_Some [OF r] obtain mid post0
      where cs: "cs = mid @ CHR '']'' # post0" and rr: "r = mid @ [CHR '']'']" by blast
    have "CHR '']'' \<notin> set post0"
    proof
      assume "CHR '']'' \<in> set post0"
      then obtain a b where ab: "post0 = a @ CHR '']'' # b" and b: "CHR '']'' \<notin> set b"
        by (meson split_list_last)
      have "match_star_close cs = Some ((mid @ CHR '']'' # a) @ [CHR '']''])"
        using match_star_close_last [OF b, of "mid @ CHR '']'' # a"] cs ab by simp
      with r rr show False by simp
    qed
    with c cs mr rr
    have "c # cs = [] @ CHR ''['' # mid @ CHR '']'' # post0 \<and> m = CHR ''['' # mid @ [CHR '']'']
        \<and> CHR ''['' \<notin> set [] \<and> CHR '']'' \<notin> set post0" by simp
    then show ?thesis by blast
  qed
qed

lemma re_search_None:
  "re_search s = None \<Longrightarrow> \<not> (\<exists>pre mid post. s = pre @ CHR ''['' # mid @ CHR '']'' # post)"
proof
  assume none: "re_search s = None"
  assume "\<exists>pre mid post. s = pre @ CHR ''['' # mid @ CHR '']'' # post"
  then obtain pre mid post where s: "s = pre @ CHR ''['' # mid @ CHR '']'' # post" by blast
  have "CHR ''['' \<in> set s" using s by simp
  then obtain p1 r1 where s1: "s = p1 @ CHR ''['' # r1" and p1: "CHR ''['' \<notin> set p1"
    by (meson split_list_first)
  have "length p1 \<le> length pre"
  proof (rule ccontr)
    assume "\<not> length p1 \<le> length pre"
    then have lt: "length pre < length p1" by simp
    have "p1 ! length pre = s ! length pre" using s1 lt by (simp add: nth_append)
    also have "\<dots> = CHR ''[''" using s by (simp add: nth_append)
    finally have "CHR ''['' \<in> set p1" using lt nth_mem by metis
    with p1 show False by simp
  qed
  then have "CHR '']'' \<in> set r1"
  proof -
    assume le: "length p1 \<le> length pre"
    have "drop (Suc (length p1)) s = r1" using s1 by simp
    moreover have "drop (Suc (length pre)) s = mid @ CHR '']'' # post" using s by simp
    moreover have "drop (Suc (length pre)) s = drop (length pre - length p1) (drop (Suc (length p1)) s)"
      using le by simp
    ultimately have "mid @ CHR '']'' # post = drop (length pre - length p1) r1" by simp
    then have "CHR '']'' \<in> set (drop (length pre - length p1) r1)"
      by (metis in_set_conv_decomp)
    then show ?thesis by (meson in_set_dropD)
  qed
  then obtain m2 post2 where r1: "r1 = m2 @ CHR '']'' # post2" and post2: "CHR '']'' \<notin> set post2"
    by (meson split_list_last)
  have "re_search s = Some (CHR ''['' # m2 @ [CHR '']''])"
    using re_search_span [OF p1 post2] s1 r1 by simp
  with none show False by simp
qed

text \<open>
  C3. \<open>_extract_json\<close> returns the span from the first \<open>[\<close> to the last \<open>]\<close> of the
  response; when no \<open>[\<close> is followed by a \<open>]\<close> there is no span and the whole response is
  returned; whenever some \<open>[\<close> is followed by a \<open>]\<close> the widest span exists. For the
  response with prose around the array, the extracted text is the array alone, so what
  \<open>json.loads\<close> is given, and returns when it reads that text as the one-element array,
  is the array.
\<close>

theorem extract_json_widest_span:
  \<open>(\<forall>pre mid post.
       text = pre @ ''['' @ mid @ '']'' @ post \<and> CHR ''['' \<notin> set pre \<and> CHR '']'' \<notin> set post
         \<longrightarrow> extract_json text = ''['' @ mid @ '']'')
   \<and> ((\<nexists>pre mid post. text = pre @ ''['' @ mid @ '']'' @ post) \<longrightarrow> extract_json text = text)
   \<and> ((\<exists>pre mid post. text = pre @ ''['' @ mid @ '']'' @ post) \<longrightarrow>
        (\<exists>pre mid post. text = pre @ ''['' @ mid @ '']'' @ post
            \<and> CHR ''['' \<notin> set pre \<and> CHR '']'' \<notin> set post))
   \<and> extract_json example_response = ''[{"title":"A"}]''
   \<and> (json_loads lib ''[{"title":"A"}]'' = Inr (JArr [JObj [(''title'', JStr ''A'')]])
        \<longrightarrow> json_loads lib (extract_json example_response)
              = Inr (JArr [JObj [(''title'', JStr ''A'')]]))\<close>
proof (intro conjI allI impI)
  fix pre mid post
  assume "text = pre @ ''['' @ mid @ '']'' @ post \<and> CHR ''['' \<notin> set pre \<and> CHR '']'' \<notin> set post"
  then show "extract_json text = ''['' @ mid @ '']''"
    using re_search_span [of pre post mid] by (simp add: extract_json_def)
next
  assume no: "\<nexists>pre mid post. text = pre @ ''['' @ mid @ '']'' @ post"
  have "re_search text = None"
  proof (cases "re_search text")
    case None
    then show ?thesis .
  next
    case (Some m)
    from re_search_Some [OF this] no show ?thesis by auto
  qed
  then show "extract_json text = text" by (simp add: extract_json_def)
next
  assume ex: "\<exists>pre mid post. text = pre @ ''['' @ mid @ '']'' @ post"
  show "\<exists>pre mid post. text = pre @ ''['' @ mid @ '']'' @ post
            \<and> CHR ''['' \<notin> set pre \<and> CHR '']'' \<notin> set post"
  proof (cases "re_search text")
    case None
    from re_search_None [OF this] ex show ?thesis by simp
  next
    case (Some m)
    from re_search_Some [OF this] show ?thesis by auto
  qed
next
  show x: \<open>extract_json example_response = ''[{"title":"A"}]''\<close>
    by (simp add: extract_json_def example_response_def)
  show \<open>json_loads lib (extract_json example_response) = Inr (JArr [JObj [(''title'', JStr ''A'')]])\<close>
    if \<open>json_loads lib ''[{"title":"A"}]'' = Inr (JArr [JObj [(''title'', JStr ''A'')]])\<close>
    using that by (simp only: x)
qed

theorem extract_json_widest_span_witness:
  \<open>''] see [1] and [2] ['' = ''] see '' @ ''['' @ ''1] and [2'' @ '']'' @ '' [''
   \<and> CHR ''['' \<notin> set ''] see '' \<and> CHR '']'' \<notin> set '' [''
   \<and> extract_json ''] see [1] and [2] ['' = ''['' @ ''1] and [2'' @ '']''
   \<and> (\<nexists>pre mid post. ''] ['' = pre @ ''['' @ mid @ '']'' @ post)
   \<and> extract_json ''] ['' = ''] [''
   \<and> json_loads sample_lib ''[{"title":"A"}]'' = Inr (JArr [JObj [(''title'', JStr ''A'')]])
   \<and> json_loads sample_lib (extract_json example_response)
        = Inr (JArr [JObj [(''title'', JStr ''A'')]])\<close>
proof -
  have h: \<open>''] see [1] and [2] ['' = ''] see '' @ ''['' @ ''1] and [2'' @ '']'' @ '' [''
      \<and> CHR ''['' \<notin> set ''] see '' \<and> CHR '']'' \<notin> set '' [''\<close>
    by simp
  have a: \<open>extract_json ''] see [1] and [2] ['' = ''['' @ ''1] and [2'' @ '']''\<close>
    using extract_json_widest_span [of \<open>''] see [1] and [2] [''\<close>] h by blast
  have "re_search ''] ['' = None" by simp
  from re_search_None [OF this]
  have n: \<open>\<nexists>pre mid post. ''] ['' = pre @ ''['' @ mid @ '']'' @ post\<close> by simp
  have b: \<open>extract_json ''] ['' = ''] [''\<close>
    using extract_json_widest_span [of \<open>''] [''\<close>] n by blast
  have l: \<open>json_loads sample_lib ''[{"title":"A"}]'' = Inr (JArr [JObj [(''title'', JStr ''A'')]])\<close>
    by (simp add: sample_lib_def)
  have p: \<open>json_loads sample_lib (extract_json example_response)
        = Inr (JArr [JObj [(''title'', JStr ''A'')]])\<close>
    using extract_json_widest_span [where lib = sample_lib] l by blast
  from h a n b l p show ?thesis by blast
qed

section \<open>Properties of the string helpers\<close>

lemma join_Cons:
  "xs \<noteq> [] \<Longrightarrow> join sep (x # xs) = x @ sep @ join sep xs"
  by (cases xs) simp_all

lemma foldl_sep_shift:
  "foldl (\<lambda>acc y. acc @ sep @ y) (a @ b) xs = a @ foldl (\<lambda>acc y. acc @ sep @ y) b xs"
  by (induction xs arbitrary: b) simp_all

lemma join_foldl:
  "join sep (x # xs) = foldl (\<lambda>acc y. acc @ sep @ y) x xs"
proof (induction xs arbitrary: x)
  case Nil
  then show ?case by simp
next
  case (Cons y ys)
  have "foldl (\<lambda>acc z. acc @ sep @ z) x (y # ys) = foldl (\<lambda>acc z. acc @ sep @ z) ((x @ sep) @ y) ys"
    by simp
  also have "\<dots> = (x @ sep) @ foldl (\<lambda>acc z. acc @ sep @ z) y ys"
    by (rule foldl_sep_shift)
  also have "\<dots> = x @ sep @ join sep (y # ys)"
    by (simp add: Cons.IH)
  finally show ?case by simp
qed

lemma join_space_joined: "join '' '' xs = space_joined xs"
  by (cases xs) (simp_all add: join_foldl del: join.simps(3))

lemma strip_is_trimmed: "is_trimmed_of (strip s) s"
proof -
  define d where "d = dropWhile isspace s"
  have st: "strip s = rev (dropWhile isspace (rev d))"
    by (simp add: strip_def lstrip_def rstrip_def d_def)
  have "d = rev (takeWhile isspace (rev d) @ dropWhile isspace (rev d))"
    by simp
  also have "\<dots> = rev (dropWhile isspace (rev d)) @ rev (takeWhile isspace (rev d))"
    by (simp only: rev_append)
  finally have d: "d = strip s @ rev (takeWhile isspace (rev d))"
    by (simp only: st)
  have "s = takeWhile isspace s @ d"
    by (simp add: d_def)
  with d have decomp: "s = takeWhile isspace s @ strip s @ rev (takeWhile isspace (rev d))"
    by simp
  have ends: "\<not> isspace (hd (strip s)) \<and> \<not> isspace (last (strip s))" if ne: "strip s \<noteq> []"
  proof
    from ne d have "hd (strip s) = hd d"
      by (metis hd_append2)
    moreover from ne d have "d \<noteq> []" by auto
    ultimately show "\<not> isspace (hd (strip s))"
      unfolding d_def by (metis hd_dropWhile)
    from ne st have "dropWhile isspace (rev d) \<noteq> []" by simp
    then have "\<not> isspace (hd (dropWhile isspace (rev d)))"
      by (rule hd_dropWhile)
    moreover have "last (strip s) = hd (dropWhile isspace (rev d))"
      by (simp add: st last_rev)
    ultimately show "\<not> isspace (last (strip s))" by simp
  qed
  show ?thesis
    unfolding is_trimmed_of_def using decomp ends by (auto simp: d_def)
qed

lemma is_trimmed_of_unique:
  "is_trimmed_of t s \<Longrightarrow> is_trimmed_of t' s \<Longrightarrow> t = t'"
  unfolding is_trimmed_of_def by (metis append_same_eq same_append_eq)

lemma digit_char_digit: "d < 10 \<Longrightarrow> digit_char d \<in> set ''0123456789''"
proof -
  assume "d < 10"
  then have "d < length ''0123456789''" by simp
  then show ?thesis unfolding digit_char_def by (rule nth_mem)
qed

lemma digits_nat_digits: "set (digits_nat n) \<subseteq> set ''0123456789''"
proof (induction n rule: digits_nat.induct)
  case (1 n)
  show ?case
  proof (cases "n < 10")
    case True
    then show ?thesis
      using digit_char_digit [of n] by (subst digits_nat.simps) simp
  next
    case False
    have "n mod 10 < 10" by simp
    from digit_char_digit [OF this] 1 [OF False] False show ?thesis
      by (subst digits_nat.simps) simp
  qed
qed

lemma digits_nat_small: "n < 10 \<Longrightarrow> digits_nat n = [digit_char n]"
  by (subst digits_nat.simps) simp

lemma digits_nat_two: "10 \<le> n \<Longrightarrow> n < 100 \<Longrightarrow> digits_nat n = two_digits n"
proof -
  assume a: "10 \<le> n" "n < 100"
  then have "n div 10 < 10" by simp
  then have "digits_nat (n div 10) = [digit_char (n div 10)]" by (rule digits_nat_small)
  with a show ?thesis
    by (subst digits_nat.simps) (simp add: two_digits_def)
qed

lemma digits_nat_length: "10 \<le> n \<Longrightarrow> 2 \<le> length (digits_nat n)"
proof -
  assume a: "10 \<le> n"
  have "digits_nat (n div 10) \<noteq> []"
    by (subst digits_nat.simps) simp
  then have "1 \<le> length (digits_nat (n div 10))"
    by (cases "digits_nat (n div 10)") simp_all
  with a show ?thesis
    by (subst digits_nat.simps) simp
qed

lemma fmt_02d_two_digits: "0 \<le> i \<Longrightarrow> i < 100 \<Longrightarrow> fmt_02d i = two_digits (nat i)"
proof -
  assume a: "0 \<le> i" "i < 100"
  show ?thesis
  proof (cases "nat i < 10")
    case True
    then have "nat i div 10 = 0" "nat i mod 10 = nat i" by simp_all
    with True a show ?thesis
      by (simp add: fmt_02d_def zfill_def digits_nat_small two_digits_def digit_char_def)
  next
    case False
    with a have "10 \<le> nat i" "nat i < 100" by simp_all
    then have "digits_nat (nat i) = two_digits (nat i)" by (rule digits_nat_two)
    with a show ?thesis
      by (simp add: fmt_02d_def zfill_def two_digits_def)
  qed
qed

lemma fmt_02d_large: "100 \<le> i \<Longrightarrow> fmt_02d i = digits_nat (nat i)"
proof -
  assume a: "100 \<le> i"
  then have "10 \<le> nat i" by simp
  from digits_nat_length [OF this] a show ?thesis
    by (simp add: fmt_02d_def zfill_def)
qed

lemma fmt_02d_no_colon: "CHR '':'' \<notin> set (fmt_02d i)"
proof -
  have "CHR '':'' \<notin> set (digits_nat n)" for n
    using digits_nat_digits [of n] by auto
  then show ?thesis
    by (simp add: fmt_02d_def zfill_def)
qed

lemma py_int_nonneg: "0 \<le> x \<Longrightarrow> of_int (py_int x) \<le> x \<and> x < of_int (py_int x) + 1 \<and> 0 \<le> py_int x"
  by (simp add: py_int_def)

lemma py_int_neg: "x < 0 \<Longrightarrow> x \<le> of_int (py_int x) \<and> of_int (py_int x) < x + 1 \<and> py_int x \<le> 0"
  by (simp add: py_int_def) linarith

section \<open>Transcript full text\<close>

text \<open>
  C5. The full text of a transcript is its segments' texts, in order, each without its
  leading and trailing whitespace, with a single space between neighbours; a transcript
  without segments has the empty full text.
\<close>

theorem full_text_space_joined_trimmed:
  "(\<exists>ts. length ts = length (segments T)
       \<and> (\<forall>i < length ts. is_trimmed_of (ts ! i) (seg_text (segments T ! i)))
       \<and> full_text T = space_joined ts)
   \<and> (segments T = [] \<longrightarrow> full_text T = [])"
proof
  let ?ts = "map (\<lambda>seg. strip (seg_text seg)) (segments T)"
  have "length ?ts = length (segments T)" by simp
  moreover have "\<forall>i < length ?ts. is_trimmed_of (?ts ! i) (seg_text (segments T ! i))"
    by (simp add: strip_is_trimmed)
  moreover have "full_text T = space_joined ?ts"
    by (simp only: full_text_def join_space_joined)
  ultimately show "\<exists>ts. length ts = length (segments T)
       \<and> (\<forall>i < length ts. is_trimmed_of (ts ! i) (seg_text (segments T ! i)))
       \<and> full_text T = space_joined ts"
    by blast
  show "segments T = [] \<longrightarrow> full_text T = []"
    by (simp add: full_text_def)
qed

theorem full_text_space_joined_trimmed_witness:
  "segments \<lparr>segments = [], words = [], language = ''en'', duration = 0::real\<rparr> = []
   \<and> full_text \<lparr>segments = [], words = [], language = ''en'', duration = 0::real\<rparr> = []
   \<and> (\<exists>ts. length ts = 2
         \<and> is_trimmed_of (ts ! 0) ''  Hello '' \<and> is_trimmed_of (ts ! 1) (''World'' @ [CHR 0x0A])
         \<and> full_text \<lparr>segments = [\<lparr>seg_start = 0::real, seg_end = 30, seg_text = ''  Hello ''\<rparr>,
                                    \<lparr>seg_start = 30, seg_end = 65, seg_text = ''World'' @ [CHR 0x0A]\<rparr>],
                        words = [], language = ''en'', duration = 65\<rparr> = space_joined ts)"
proof -
  let ?E = "\<lparr>segments = [], words = [], language = ''en'', duration = 0::real\<rparr>"
  let ?T = "\<lparr>segments = [\<lparr>seg_start = 0::real, seg_end = 30, seg_text = ''  Hello ''\<rparr>,
                          \<lparr>seg_start = 30, seg_end = 65, seg_text = ''World'' @ [CHR 0x0A]\<rparr>],
              words = [], language = ''en'', duration = 65\<rparr>"
  have e: "segments ?E = []" by simp
  have "full_text ?E = []"
    using full_text_space_joined_trimmed [of ?E] e by blast
  moreover from full_text_space_joined_trimmed [of ?T]
  obtain ts where ts: "length ts = length (segments ?T)"
      "\<forall>i < length ts. is_trimmed_of (ts ! i) (seg_text (segments ?T ! i))"
      "full_text ?T = space_joined ts"
    by blast
  from ts(1) have l: "length ts = 2" by simp
  have "is_trimmed_of (ts ! 0) ''  Hello ''"
    using ts(2) [rule_format, of 0] l by simp
  moreover have "is_trimmed_of (ts ! 1) (''World'' @ [CHR 0x0A])"
    using ts(2) [rule_format, of 1] l by simp
  ultimately show ?thesis using e l ts(3) by blast
qed

lemma full_text_example:
  "full_text \<lparr>segments = [\<lparr>seg_start = 0::real, seg_end = 30, seg_text = ''  Hello ''\<rparr>,
                          \<lparr>seg_start = 30, seg_end = 65, seg_text = ''World'' @ [CHR 0x0A]\<rparr>],
              words = [], language = ''en'', duration = 65\<rparr> = ''Hello World''"
  by (simp add: full_text_def strip_def lstrip_def rstrip_def isspace_def)

section \<open>Chapter timestamps and chapter lines\<close>

lemma timestamp_examples:
  "timestamp \<lparr>start_time = 65.9, ch_title = ti, ch_description = de\<rparr> = ''01:05''"
  "timestamp \<lparr>start_time = 3725.0, ch_title = ti, ch_description = de\<rparr> = ''01:02:05''"
  "timestamp \<lparr>start_time = 0.0, ch_title = ti, ch_description = de\<rparr> = ''00:00''"
  by (simp_all add: timestamp_def py_int_def fmt_02d_def zfill_def digits_nat.simps digit_char_def)

lemma hms_split:
  fixes t :: int
  shows "t = 3600 * (t div 3600) + 60 * ((t mod 3600) div 60) + t mod 60"
    and "0 \<le> (t mod 3600) div 60" and "(t mod 3600) div 60 < 60"
    and "0 \<le> t mod 60" and "t mod 60 < 60"
proof -
  have a: "t = 3600 * (t div 3600) + t mod 3600" by simp
  have b: "t mod 3600 = 60 * ((t mod 3600) div 60) + (t mod 3600) mod 60" by simp
  have c: "(t mod 3600) mod 60 = t mod 60" by (simp add: mod_mod_cancel)
  from a b c show "t = 3600 * (t div 3600) + 60 * ((t mod 3600) div 60) + t mod 60"
    by linarith
  have d: "0 \<le> t mod 3600" "t mod 3600 < 3600" by simp_all
  from d(1) show "0 \<le> (t mod 3600) div 60" by (simp add: pos_imp_zdiv_nonneg_iff)
  from d(2) show "(t mod 3600) div 60 < 60" by simp
  show "0 \<le> t mod 60" "t mod 60 < 60" by simp_all
qed

lemma fmt_02d_hours:
  "0 < h \<Longrightarrow> fmt_02d h = (if h < 100 then two_digits (nat h) else digits_nat (nat h))"
  by (simp add: fmt_02d_two_digits fmt_02d_large)

text \<open>
  C7. The timestamp of a chapter is computed from \<open>start_time\<close> truncated to an integer
  (for a non-negative time the whole seconds, the fraction dropped). The truncated value
  splits into hours, minutes below 60 and seconds below 60; the timestamp is
  \<open>HH:MM:SS\<close> when the hours are positive and \<open>MM:SS\<close> otherwise, minutes and
  seconds with exactly two digits, hours with two digits (more only from 100 hours on).
  65.9 gives 01:05, 3725.0 gives 01:02:05, 0.0 gives 00:00. The chapter line is the
  timestamp, a space and the title, followed by " - " and the description when the
  description is not empty.
\<close>

theorem chapter_timestamp_format:
  "(let t = py_int (start_time c); h = t div 3600; m = (t mod 3600) div 60; s = t mod 60 in
      (0 \<le> start_time c \<longrightarrow> of_int t \<le> start_time c \<and> start_time c < of_int t + 1)
    \<and> (start_time c < 0 \<longrightarrow> start_time c \<le> of_int t \<and> of_int t < start_time c + 1)
    \<and> t = 3600 * h + 60 * m + s \<and> 0 \<le> m \<and> m < 60 \<and> 0 \<le> s \<and> s < 60
    \<and> (0 < h \<longrightarrow> timestamp c =
          (if h < 100 then two_digits (nat h) else digits_nat (nat h))
            @ '':'' @ two_digits (nat m) @ '':'' @ two_digits (nat s))
    \<and> (\<not> 0 < h \<longrightarrow> timestamp c = two_digits (nat m) @ '':'' @ two_digits (nat s)))
   \<and> to_youtube_format c =
       (if ch_description c = [] then timestamp c @ '' '' @ ch_title c
        else timestamp c @ '' '' @ ch_title c @ '' - '' @ ch_description c)
   \<and> timestamp \<lparr>start_time = 65.9, ch_title = ti, ch_description = de\<rparr> = ''01:05''
   \<and> timestamp \<lparr>start_time = 3725.0, ch_title = ti, ch_description = de\<rparr> = ''01:02:05''
   \<and> timestamp \<lparr>start_time = 0.0, ch_title = ti, ch_description = de\<rparr> = ''00:00''"
proof -
  let ?t = "py_int (start_time c)"
  let ?h = "?t div 3600"
  let ?m = "(?t mod 3600) div 60"
  let ?s = "?t mod 60"
  have trunc_pos: "0 \<le> start_time c \<longrightarrow> of_int ?t \<le> start_time c \<and> start_time c < of_int ?t + 1"
    using py_int_nonneg [of "start_time c"] by simp
  have trunc_neg: "start_time c < 0 \<longrightarrow> start_time c \<le> of_int ?t \<and> of_int ?t < start_time c + 1"
    using py_int_neg [of "start_time c"] by simp
  have split: "?t = 3600 * ?h + 60 * ?m + ?s"
    by (rule hms_split)
  have m0: "0 \<le> ?m" and m1: "?m < 60" and s0: "0 \<le> ?s" and s1: "?s < 60"
    by (rule hms_split)+
  have mm: "fmt_02d ?m = two_digits (nat ?m)"
    using m0 m1 by (intro fmt_02d_two_digits) simp_all
  have ss: "fmt_02d ?s = two_digits (nat ?s)"
    using s0 s1 by (intro fmt_02d_two_digits) simp_all
  have ts: "timestamp c = (if 0 < ?h then fmt_02d ?h @ '':'' @ fmt_02d ?m @ '':'' @ fmt_02d ?s
                           else fmt_02d ?m @ '':'' @ fmt_02d ?s)"
    by (simp only: timestamp_def Let_def)
  have long: "0 < ?h \<longrightarrow> timestamp c =
          (if ?h < 100 then two_digits (nat ?h) else digits_nat (nat ?h))
            @ '':'' @ two_digits (nat ?m) @ '':'' @ two_digits (nat ?s)"
  proof
    assume h: "0 < ?h"
    then have "timestamp c = fmt_02d ?h @ '':'' @ fmt_02d ?m @ '':'' @ fmt_02d ?s"
      by (simp only: ts if_True)
    then show "timestamp c =
          (if ?h < 100 then two_digits (nat ?h) else digits_nat (nat ?h))
            @ '':'' @ two_digits (nat ?m) @ '':'' @ two_digits (nat ?s)"
      by (simp only: fmt_02d_hours [OF h] mm ss)
  qed
  have short: "\<not> 0 < ?h \<longrightarrow> timestamp c = two_digits (nat ?m) @ '':'' @ two_digits (nat ?s)"
  proof
    assume "\<not> 0 < ?h"
    then have "timestamp c = fmt_02d ?m @ '':'' @ fmt_02d ?s"
      by (simp only: ts if_False)
    then show "timestamp c = two_digits (nat ?m) @ '':'' @ two_digits (nat ?s)"
      by (simp only: mm ss)
  qed
  have line: "to_youtube_format c =
       (if ch_description c = [] then timestamp c @ '' '' @ ch_title c
        else timestamp c @ '' '' @ ch_title c @ '' - '' @ ch_description c)"
    by (simp add: to_youtube_format_def)
  show ?thesis
    unfolding Let_def
    by (intro conjI) (rule trunc_pos trunc_neg split m0 m1 s0 s1 long short line timestamp_examples)+
qed

theorem chapter_timestamp_format_witness:
  "(0::real) \<le> 3725.5 \<and> (0::int) < 3725 div 3600
   \<and> timestamp \<lparr>start_time = 3725.5, ch_title = ''Intro'', ch_description = ''Welcome''\<rparr> = ''01:02:05''
   \<and> to_youtube_format \<lparr>start_time = 3725.5, ch_title = ''Intro'', ch_description = ''Welcome''\<rparr>
        = ''01:02:05 Intro - Welcome''
   \<and> \<not> (0::int) < 65 div 3600
   \<and> to_youtube_format \<lparr>start_time = 65.9, ch_title = ''Intro'', ch_description = []\<rparr> = ''01:05 Intro''"
proof -
  let ?c = "\<lparr>start_time = 3725.5, ch_title = ''Intro'', ch_description = ''Welcome''\<rparr>"
  let ?d = "\<lparr>start_time = 65.9, ch_title = ''Intro'', ch_description = []\<rparr>"
  have t: "py_int (start_time ?c) = 3725" by (simp add: py_int_def)
  have u: "py_int (start_time ?d) = 65" by (simp add: py_int_def)
  have h: "(0::int) < 3725 div 3600" and k: "\<not> (0::int) < 65 div 3600" by simp_all
  note mc = chapter_timestamp_format [of ?c, unfolded Let_def]
  note md = chapter_timestamp_format [of ?d, unfolded Let_def]
  note mc_long = mc [THEN conjunct1, THEN conjunct2, THEN conjunct2, THEN conjunct2, THEN conjunct2, THEN conjunct2, THEN conjunct2, THEN conjunct2, THEN conjunct1]
  note mc_line = mc [THEN conjunct2, THEN conjunct1]
  note md_short = md [THEN conjunct1, THEN conjunct2, THEN conjunct2, THEN conjunct2, THEN conjunct2, THEN conjunct2, THEN conjunct2, THEN conjunct2, THEN conjunct2]
  note md_line = md [THEN conjunct2, THEN conjunct1]
  have "0 < py_int (start_time ?c) div 3600 \<longrightarrow> timestamp ?c =
          (if py_int (start_time ?c) div 3600 < 100 then two_digits (nat (py_int (start_time ?c) div 3600))
           else digits_nat (nat (py_int (start_time ?c) div 3600)))
            @ '':'' @ two_digits (nat (py_int (start_time ?c) mod 3600 div 60))
            @ '':'' @ two_digits (nat (py_int (start_time ?c) mod 60))"
    by (rule mc_long)
  then have a: "timestamp ?c = ''01:02:05''"
    unfolding t by (simp add: two_digits_def digit_char_def)
  have "to_youtube_format ?c =
       (if ch_description ?c = [] then timestamp ?c @ '' '' @ ch_title ?c
        else timestamp ?c @ '' '' @ ch_title ?c @ '' - '' @ ch_description ?c)"
    by (rule mc_line)
  then have b: "to_youtube_format ?c = ''01:02:05 Intro - Welcome''"
    unfolding a by simp
  have "\<not> 0 < py_int (start_time ?d) div 3600 \<longrightarrow> timestamp ?d =
          two_digits (nat (py_int (start_time ?d) mod 3600 div 60))
            @ '':'' @ two_digits (nat (py_int (start_time ?d) mod 60))"
    by (rule md_short)
  then have c: "timestamp ?d = ''01:05''"
    unfolding u by (simp add: two_digits_def digit_char_def)
  have "to_youtube_format ?d =
       (if ch_description ?d = [] then timestamp ?d @ '' '' @ ch_title ?d
        else timestamp ?d @ '' '' @ ch_title ?d @ '' - '' @ ch_description ?d)"
    by (rule md_line)
  then have d: "to_youtube_format ?d = ''01:05 Intro''"
    unfolding c by simp
  have "(0::real) \<le> 3725.5" by simp
  with h k a b d show ?thesis by (intro conjI)
qed

section \<open>The timestamp-annotated transcript of the chapter prompt\<close>

lemma length_zfill: "w \<le> length (zfill w s)"
  by (simp add: zfill_def)

lemma digits_nat_nonempty: "1 \<le> length (digits_nat n)"
proof -
  have "digits_nat n \<noteq> []" by (subst digits_nat.simps) simp
  then show ?thesis by (cases "digits_nat n") simp_all
qed

lemma fmt_02d_length: "2 \<le> length (fmt_02d i)"
proof (cases "i < 0")
  case True
  have "1 \<le> length (zfill 1 (digits_nat (nat (- i))))" by (rule length_zfill)
  with True show ?thesis by (simp add: fmt_02d_def)
next
  case False
  have "2 \<le> length (zfill 2 (digits_nat (nat i)))" by (rule length_zfill)
  with False show ?thesis by (simp add: fmt_02d_def)
qed

lemma fmt_02d_nonneg:
  "0 \<le> i \<Longrightarrow> fmt_02d i = (if i < 100 then two_digits (nat i) else digits_nat (nat i))"
  by (simp add: fmt_02d_two_digits fmt_02d_large)

lemma round_half_even_of_int: "round_half_even (of_int k) = k"
  by (simp add: round_half_even_def)

lemma pow2_pos: "0 < pow2 e"
  by (simp add: pow2_def)

lemma floor_log2_bounds:
  fixes a :: int
  assumes "1 \<le> a" and "a < 2 ^ 53"
  shows "0 \<le> \<lfloor>log 2 (of_int a)\<rfloor>" and "\<lfloor>log 2 (of_int a)\<rfloor> \<le> 52"
proof -
  have "0 \<le> log 2 (of_int a)" using assms(1) by simp
  then show "0 \<le> \<lfloor>log 2 (of_int a)\<rfloor>" by simp
  have "(of_int a :: real) < 2 ^ 53" using assms(2) by (metis of_int_less_iff of_int_numeral of_int_power)
  then have "log 2 (of_int a) < 53" using assms(1)
    by (subst log_less_iff) simp_all
  then show "\<lfloor>log 2 (of_int a)\<rfloor> \<le> 52" by linarith
qed

lemma round_double_of_int:
  fixes j :: int
  assumes "\<bar>j\<bar> < 2 ^ 53"
  shows "round_double (of_int j) = of_int j"
proof (cases "j = 0")
  case True
  then show ?thesis by (simp add: round_double_def)
next
  case False
  define a where "a = \<bar>j\<bar>"
  have a: "1 \<le> a" "a < 2 ^ 53" using False assms by (simp_all add: a_def)
  define e where "e = \<lfloor>log 2 (of_int a)\<rfloor>"
  from floor_log2_bounds [OF a] have e: "0 \<le> e" "e \<le> 52" by (simp_all add: e_def)
  have abs: "\<bar>of_int j :: real\<bar> = of_int a" by (simp add: a_def)
  have m: "max (- 1022) e = e" using e by simp
  define n where "n = nat (52 - e)"
  have u: "pow2 (e - 52) = 1 / 2 ^ n"
    using e by (cases "e = 52") (simp_all add: pow2_def n_def)
  have q: "(of_int j :: real) / (1 / 2 ^ n) = of_int (j * 2 ^ n)" by simp
  have "round_double (of_int j) = of_int (round_half_even (of_int j / pow2 (e - 52))) * pow2 (e - 52)"
    using False by (simp add: round_double_def abs e_def [symmetric] m Let_def)
  also have "\<dots> = of_int (j * 2 ^ n) * (1 / 2 ^ n)"
    unfolding u q round_half_even_of_int ..
  also have "\<dots> = of_int j" by simp
  finally show ?thesis .
qed


lemma c_fmod_nonneg: "0 \<le> x \<Longrightarrow> c_fmod x 60 = x - 60 * of_int \<lfloor>x / 60\<rfloor>"
  by (simp add: c_fmod_def py_int_def)

lemma rem60_bounds:
  fixes x :: real
  shows "0 \<le> x - 60 * of_int \<lfloor>x / 60\<rfloor>" and "x - 60 * of_int \<lfloor>x / 60\<rfloor> < 60"
proof -
  have "of_int \<lfloor>x / 60\<rfloor> \<le> x / 60" and "x / 60 < of_int \<lfloor>x / 60\<rfloor> + 1"
    by linarith+
  then show "0 \<le> x - 60 * of_int \<lfloor>x / 60\<rfloor>" and "x - 60 * of_int \<lfloor>x / 60\<rfloor> < 60"
    by (simp_all add: field_simps)
qed

lemma float_mod_exact:
  assumes "0 \<le> x"
  shows "float_mod x 60 = x - 60 * of_int \<lfloor>x / 60\<rfloor>"
  using rem60_bounds (1) [of x]
  by (simp add: float_mod_def c_fmod_nonneg [OF assms] Let_def)

lemma float_floordiv_exact:
  assumes "0 \<le> x" and "x < 2 ^ 53"
  shows "float_floordiv x 60 = of_int \<lfloor>x / 60\<rfloor>"
proof -
  define k where "k = \<lfloor>x / 60\<rfloor>"
  define m where "m = x - 60 * of_int k"
  have m: "c_fmod x 60 = m" by (simp add: c_fmod_nonneg [OF assms(1)] m_def k_def)
  have mb: "0 \<le> m" "m < 60" using rem60_bounds [of x] by (simp_all add: m_def k_def)
  have k0: "0 \<le> k" using assms(1) by (simp add: k_def)
  have "of_int (60 * k) \<le> x" using mb(1) by (simp add: m_def)
  with assms(2) have "(of_int (60 * k) :: real) < 2 ^ 53" by linarith
  then have "(of_int (60 * k) :: real) < of_int (2 ^ 53)" by simp
  then have lt: "60 * k < 2 ^ 53" by (simp only: of_int_less_iff)
  with k0 have b1: "\<bar>60 * k\<bar> < 2 ^ 53" and b2: "\<bar>k\<bar> < 2 ^ 53" by simp_all
  have xm: "x - m = of_int (60 * k)" by (simp add: m_def)
  have r1: "round_double (x - m) = of_int (60 * k)"
    unfolding xm by (rule round_double_of_int [OF b1])
  have "round_double (round_double (x - m) / 60) = round_double (of_int k)"
    unfolding r1 by simp
  then have d: "round_double (round_double (x - m) / 60) = of_int k"
    by (simp only: round_double_of_int [OF b2])
  have z: "round_double 0 = 0" by (simp add: round_double_def)
  show ?thesis
    unfolding float_floordiv_def m Let_def d k_def [symmetric]
    using mb(1) by (simp add: z)
qed

lemma timestamp_line_exact:
  assumes "0 \<le> seg_start seg" and "seg_start seg < 2 ^ 53"
  shows "timestamp_line seg =
     ''['' @ fmt_02d \<lfloor>seg_start seg / 60\<rfloor> @ '':''
       @ two_digits (nat \<lfloor>seg_start seg - 60 * of_int \<lfloor>seg_start seg / 60\<rfloor>\<rfloor>)
       @ ''] '' @ strip (seg_text seg)"
proof -
  let ?x = "seg_start seg"
  let ?r = "?x - 60 * of_int \<lfloor>?x / 60\<rfloor>"
  have mins: "py_int (float_floordiv ?x 60) = \<lfloor>?x / 60\<rfloor>"
    by (simp add: float_floordiv_exact [OF assms] py_int_def)
  have secs: "py_int (float_mod ?x 60) = \<lfloor>?r\<rfloor>"
    using rem60_bounds (1) [of ?x] by (simp add: float_mod_exact [OF assms(1)] py_int_def)
  have "0 \<le> \<lfloor>?r\<rfloor>" using rem60_bounds (1) [of ?x] by simp
  moreover have "\<lfloor>?r\<rfloor> < 100" using rem60_bounds (2) [of ?x] by (simp add: floor_less_iff)
  ultimately have "fmt_02d \<lfloor>?r\<rfloor> = two_digits (nat \<lfloor>?r\<rfloor>)"
    by (rule fmt_02d_two_digits)
  then show ?thesis
    by (simp add: timestamp_line_def Let_def mins secs)
qed


lemma pow2_powr: "pow2 e = 2 powr (of_int e)"
proof (cases "0 \<le> e")
  case True
  then have "2 powr (of_int e) = (2::real) powr (real (nat e))" by simp
  also have "\<dots> = 2 ^ nat e" by (simp add: powr_realpow)
  finally show ?thesis using True by (simp add: pow2_def)
next
  case False
  then have "(2::real) powr (of_int e) = 2 powr (- real (nat (- e)))" by simp
  also have "\<dots> = 1 / 2 powr (real (nat (- e)))" by (simp add: powr_minus_divide)
  also have "\<dots> = 1 / 2 ^ nat (- e)" by (simp add: powr_realpow)
  finally show ?thesis using False by (simp add: pow2_def)
qed

lemma round_double_at:
  assumes "pow2 e \<le> \<bar>x\<bar>" and "\<bar>x\<bar> < pow2 (e + 1)" and "- 1022 \<le> e"
  shows "round_double x = of_int (round_half_even (x / pow2 (e - 52))) * pow2 (e - 52)"
proof -
  have pos: "0 < \<bar>x\<bar>" using assms(1) pow2_pos [of e] by linarith
  then have nz: "x \<noteq> 0" by auto
  have "of_int e \<le> log 2 \<bar>x\<bar>"
    using assms(1) pos by (simp add: le_log_iff pow2_powr)
  moreover have "log 2 \<bar>x\<bar> < of_int e + 1"
    using assms(2) pos by (simp add: log_less_iff pow2_powr)
  ultimately have "\<lfloor>log 2 \<bar>x\<bar>\<rfloor> = e" by linarith
  with assms(3) nz show ?thesis
    by (simp add: round_double_def Let_def)
qed

lemma big1: "round_double (10 ^ 22 - 40) = 10 ^ 22"
  by (subst round_double_at [of 73]) (simp_all add: pow2_def round_half_even_def Let_def)

lemma big2: "round_double (10 ^ 22 / 60) = 166666666666666655744"
  by (subst round_double_at [of 67]) (simp_all add: pow2_def round_half_even_def Let_def)

lemma big_fmod: "c_fmod (10 ^ 22) 60 = 40"
  by (simp add: c_fmod_def py_int_def)

lemma big_floordiv: "float_floordiv (10 ^ 22) 60 = 166666666666666655744"
proof -
  have z: "round_double 0 = 0" by (simp add: round_double_def)
  show ?thesis
    unfolding float_floordiv_def Let_def big_fmod big1 big2
    by (simp add: z)
qed

lemma big_mod: "float_mod (10 ^ 22) 60 = 40"
  unfolding float_mod_def Let_def big_fmod by simp

lemma big_line:
  "timestamp_line \<lparr>seg_start = 10 ^ 22, seg_end = e, seg_text = tx\<rparr>
     = ''[166666666666666655744:40] '' @ strip tx"
proof -
  have "timestamp_line \<lparr>seg_start = 10 ^ 22, seg_end = e, seg_text = tx\<rparr>
     = ''['' @ fmt_02d (py_int 166666666666666655744) @ '':'' @ fmt_02d (py_int 40) @ '']''
        @ '' '' @ strip tx"
    by (simp only: timestamp_line_def Let_def TranscriptSegment.select_convs big_floordiv big_mod
        append_assoc)
  then show ?thesis
    by (simp add: py_int_def fmt_02d_def zfill_def digits_nat.simps digit_char_def)
qed

lemma big_floor: "\<lfloor>(10 ^ 22 :: real) / 60\<rfloor> = 166666666666666666666"
  by simp

lemma join_line_joined: "join [CHR 0x0A] xs = line_joined xs"
  by (cases xs) (simp_all add: join_foldl del: join.simps(3))

lemma timestamp_line_shape:
  "\<exists>mm ss. timestamp_line seg = ''['' @ mm @ '':'' @ ss @ ''] '' @ strip (seg_text seg)
      \<and> 2 \<le> length mm \<and> 2 \<le> length ss \<and> CHR '':'' \<notin> set mm \<and> CHR '':'' \<notin> set ss"
proof -
  let ?mm = "fmt_02d (py_int (float_floordiv (seg_start seg) 60))"
  let ?ss = "fmt_02d (py_int (float_mod (seg_start seg) 60))"
  have "timestamp_line seg = ''['' @ ?mm @ '':'' @ ?ss @ ''] '' @ strip (seg_text seg)"
    by (simp add: timestamp_line_def Let_def)
  moreover have "2 \<le> length ?mm" and "2 \<le> length ?ss"
    by (rule fmt_02d_length)+
  moreover have "CHR '':'' \<notin> set ?mm" and "CHR '':'' \<notin> set ?ss"
    by (rule fmt_02d_no_colon)+
  ultimately show ?thesis by blast
qed

lemma timestamp_line_example:
  "timestamp_line \<lparr>seg_start = 3725.0, seg_end = e, seg_text = tx\<rparr> = ''[62:05] '' @ strip tx"
proof -
  have "timestamp_line \<lparr>seg_start = 3725.0, seg_end = e, seg_text = tx\<rparr> =
     ''['' @ fmt_02d \<lfloor>(3725.0::real) / 60\<rfloor> @ '':''
       @ two_digits (nat \<lfloor>(3725.0::real) - 60 * of_int \<lfloor>(3725.0::real) / 60\<rfloor>\<rfloor>)
       @ ''] '' @ strip tx"
    using timestamp_line_exact [of "\<lparr>seg_start = 3725.0, seg_end = e, seg_text = tx\<rparr>"]
    by simp
  then show ?thesis
    by (simp add: fmt_02d_def zfill_def digits_nat.simps digit_char_def two_digits_def)
qed

text \<open>
  C10 (amended). The timestamp-annotated transcript has one item per segment, in order,
  one per line. The item of a segment is \<open>[MM:SS]\<close>, a space and the trimmed text; \<open>MM\<close>
  and \<open>SS\<close> have at least two characters and hold no colon, so there is no hours field.
  For a segment whose start is a float with \<open>0 \<le> start < 2^53\<close>, \<open>MM\<close> is the whole
  number of minutes \<open>floor(start / 60)\<close>, padded with zeros to at least two digits and
  never reduced modulo 60, and \<open>SS\<close> is \<open>floor(start mod 60)\<close> in two digits, below 60.
  A segment starting at 3725.0 seconds gives \<open>[62:05]\<close>, where the chapter timestamp of
  3725.0 is \<open>01:02:05\<close>.
\<close>

theorem transcript_timestamp_lines:
  "(\<exists>ls. length ls = length (segments T)
       \<and> (\<forall>i < length ls. ls ! i = timestamp_line (segments T ! i))
       \<and> format_transcript_with_timestamps T = line_joined ls)
   \<and> (0 \<le> seg_start seg \<and> seg_start seg < 2 ^ 53 \<longrightarrow>
         timestamp_line seg =
           ''[''
           @ (if \<lfloor>seg_start seg / 60\<rfloor> < 100 then two_digits (nat \<lfloor>seg_start seg / 60\<rfloor>)
              else digits_nat (nat \<lfloor>seg_start seg / 60\<rfloor>))
           @ '':''
           @ two_digits (nat \<lfloor>seg_start seg - 60 * of_int \<lfloor>seg_start seg / 60\<rfloor>\<rfloor>)
           @ ''] '' @ strip (seg_text seg)
       \<and> 0 \<le> \<lfloor>seg_start seg - 60 * of_int \<lfloor>seg_start seg / 60\<rfloor>\<rfloor>
       \<and> \<lfloor>seg_start seg - 60 * of_int \<lfloor>seg_start seg / 60\<rfloor>\<rfloor> < 60)
   \<and> (\<exists>mm ss. timestamp_line seg = ''['' @ mm @ '':'' @ ss @ ''] '' @ strip (seg_text seg)
         \<and> 2 \<le> length mm \<and> 2 \<le> length ss \<and> CHR '':'' \<notin> set mm \<and> CHR '':'' \<notin> set ss)
   \<and> is_trimmed_of (strip (seg_text seg)) (seg_text seg)
   \<and> timestamp_line \<lparr>seg_start = 3725.0, seg_end = e, seg_text = tx\<rparr> = ''[62:05] '' @ strip tx
   \<and> timestamp \<lparr>start_time = 3725.0, ch_title = ti, ch_description = de\<rparr> = ''01:02:05''"
proof -
  let ?ls = "map timestamp_line (segments T)"
  have "length ?ls = length (segments T)
       \<and> (\<forall>i < length ?ls. ?ls ! i = timestamp_line (segments T ! i))
       \<and> format_transcript_with_timestamps T = line_joined ?ls"
    by (simp add: format_transcript_with_timestamps_def join_line_joined)
  then have lines: "\<exists>ls. length ls = length (segments T)
       \<and> (\<forall>i < length ls. ls ! i = timestamp_line (segments T ! i))
       \<and> format_transcript_with_timestamps T = line_joined ls"
    by (rule exI)
  let ?x = "seg_start seg"
  let ?r = "?x - 60 * of_int \<lfloor>?x / 60\<rfloor>"
  have exact: "0 \<le> ?x \<and> ?x < 2 ^ 53 \<longrightarrow>
         timestamp_line seg =
           ''[''
           @ (if \<lfloor>?x / 60\<rfloor> < 100 then two_digits (nat \<lfloor>?x / 60\<rfloor>)
              else digits_nat (nat \<lfloor>?x / 60\<rfloor>))
           @ '':'' @ two_digits (nat \<lfloor>?r\<rfloor>) @ ''] '' @ strip (seg_text seg)
       \<and> 0 \<le> \<lfloor>?r\<rfloor> \<and> \<lfloor>?r\<rfloor> < 60"
  proof (intro impI conjI)
    assume a: "0 \<le> ?x \<and> ?x < 2 ^ 53"
    then have "0 \<le> \<lfloor>?x / 60\<rfloor>" by simp
    then have mm: "fmt_02d \<lfloor>?x / 60\<rfloor> =
        (if \<lfloor>?x / 60\<rfloor> < 100 then two_digits (nat \<lfloor>?x / 60\<rfloor>)
         else digits_nat (nat \<lfloor>?x / 60\<rfloor>))"
      by (rule fmt_02d_nonneg)
    from a have "timestamp_line seg =
        ''['' @ fmt_02d \<lfloor>?x / 60\<rfloor> @ '':'' @ two_digits (nat \<lfloor>?r\<rfloor>)
          @ ''] '' @ strip (seg_text seg)"
      by (intro timestamp_line_exact) simp_all
    then show "timestamp_line seg =
           ''[''
           @ (if \<lfloor>?x / 60\<rfloor> < 100 then two_digits (nat \<lfloor>?x / 60\<rfloor>)
              else digits_nat (nat \<lfloor>?x / 60\<rfloor>))
           @ '':'' @ two_digits (nat \<lfloor>?r\<rfloor>) @ ''] '' @ strip (seg_text seg)"
      by (simp only: mm)
    show "0 \<le> \<lfloor>?r\<rfloor>" using rem60_bounds (1) [of ?x] by simp
    show "\<lfloor>?r\<rfloor> < 60" using rem60_bounds (2) [of ?x] by (simp add: floor_less_iff)
  qed
  show ?thesis
    by (intro conjI)
      (rule lines exact timestamp_line_shape strip_is_trimmed timestamp_line_example
         timestamp_examples)+
qed

theorem transcript_timestamp_lines_witness:
  "(0::real) \<le> 6059.5 \<and> (6059.5::real) < 2 ^ 53
   \<and> timestamp_line \<lparr>seg_start = 6059.5, seg_end = 6065, seg_text = '' and so on ''\<rparr>
        = ''[100:59] and so on''
   \<and> (\<exists>ls. length ls = 2
        \<and> ls ! 0 = timestamp_line \<lparr>seg_start = 0, seg_end = 30, seg_text = ''Hello''\<rparr>
        \<and> ls ! 1 = timestamp_line \<lparr>seg_start = 6059.5, seg_end = 6065, seg_text = '' World''\<rparr>
        \<and> format_transcript_with_timestamps
             \<lparr>segments = [\<lparr>seg_start = 0, seg_end = 30, seg_text = ''Hello''\<rparr>,
                          \<lparr>seg_start = 6059.5, seg_end = 6065, seg_text = '' World''\<rparr>],
              words = [], language = ''en'', duration = 6065\<rparr> = line_joined ls)"
proof -
  let ?seg = "\<lparr>seg_start = 6059.5::real, seg_end = 6065, seg_text = '' and so on ''\<rparr>"
  let ?T = "\<lparr>segments = [\<lparr>seg_start = 0::real, seg_end = 30, seg_text = ''Hello''\<rparr>,
                          \<lparr>seg_start = 6059.5, seg_end = 6065, seg_text = '' World''\<rparr>],
              words = [], language = ''en'', duration = 6065\<rparr>"
  note m = transcript_timestamp_lines [of ?T ?seg]
  have p: "0 \<le> seg_start ?seg \<and> seg_start ?seg < 2 ^ 53" by simp
  have st: "strip '' and so on '' = ''and so on''"
    by (simp add: strip_def lstrip_def rstrip_def isspace_def)
  note ex = m [THEN conjunct2, THEN conjunct1, THEN mp, OF p, THEN conjunct1]
  have a: "timestamp_line ?seg = ''[100:59] and so on''"
    unfolding ex by (simp add: st two_digits_def digits_nat.simps digit_char_def)
  from m [THEN conjunct1] obtain ls where ls: "length ls = length (segments ?T)"
      "\<forall>i < length ls. ls ! i = timestamp_line (segments ?T ! i)"
      "format_transcript_with_timestamps ?T = line_joined ls"
    by blast
  from ls(1) have l: "length ls = 2" by simp
  have l0: "ls ! 0 = timestamp_line \<lparr>seg_start = 0, seg_end = 30, seg_text = ''Hello''\<rparr>"
    using ls(2) [rule_format, of 0] l by simp
  have l1: "ls ! 1 = timestamp_line \<lparr>seg_start = 6059.5, seg_end = 6065, seg_text = '' World''\<rparr>"
    using ls(2) [rule_format, of 1] l by simp
  from l l0 l1 ls(3) have "\<exists>ls. length ls = 2
        \<and> ls ! 0 = timestamp_line \<lparr>seg_start = 0, seg_end = 30, seg_text = ''Hello''\<rparr>
        \<and> ls ! 1 = timestamp_line \<lparr>seg_start = 6059.5, seg_end = 6065, seg_text = '' World''\<rparr>
        \<and> format_transcript_with_timestamps ?T = line_joined ls"
    by blast
  with a show ?thesis by simp
qed

theorem transcript_timestamp_minutes_rounded:
  "timestamp_line \<lparr>seg_start = 10 ^ 22, seg_end = 10 ^ 22, seg_text = ''x''\<rparr>
     = ''[166666666666666655744:40] x''
   \<and> \<lfloor>(10 ^ 22 :: real) / 60\<rfloor> = 166666666666666666666"
proof -
  have "strip ''x'' = ''x''"
    by (simp add: strip_def lstrip_def rstrip_def isspace_def)
  with big_line [of "10 ^ 22" "''x''"] big_floor show ?thesis by simp
qed

section \<open>Chapter normalization\<close>

lemma sort_and_clamp_cases:
  "sort_and_clamp cs =
     (case sort_key start_time cs of
        [] \<Rightarrow> []
      | c # rest \<Rightarrow> (if 0 < start_time c then c\<lparr>start_time := 0\<rparr> # rest else c # rest))"
  by (simp add: sort_and_clamp_def Let_def split: list.split)

lemma sorted_clamp_head:
  assumes "sorted (map start_time (c # rest))" and "0 < start_time c"
  shows "sorted (map start_time (c\<lparr>start_time := 0\<rparr> # rest))"
proof -
  from assms have "\<forall>x \<in> set rest. 0 \<le> start_time x" by fastforce
  with assms(1) show ?thesis by simp
qed

lemma sorted_sort_and_clamp: "sorted (map start_time (sort_and_clamp cs))"
proof (cases "sort_key start_time cs")
  case Nil
  then show ?thesis by (simp add: sort_and_clamp_cases)
next
  case (Cons c rest)
  have "sorted (map start_time (sort_key start_time cs))" by (rule sorted_sort_key)
  with Cons have s: "sorted (map start_time (c # rest))" by simp
  show ?thesis
  proof (cases "0 < start_time c")
    case True
    with sorted_clamp_head [OF s True] Cons show ?thesis
      by (simp add: sort_and_clamp_cases)
  next
    case False
    with s Cons show ?thesis by (simp add: sort_and_clamp_cases)
  qed
qed

lemma sort_and_clamp_head_le: "sort_and_clamp cs \<noteq> [] \<Longrightarrow> start_time (hd (sort_and_clamp cs)) \<le> 0"
  by (cases "sort_key start_time cs") (auto simp: sort_and_clamp_cases)

lemma sort_and_clamp_tl: "tl (sort_and_clamp cs) = tl (sort_key start_time cs)"
  by (cases "sort_key start_time cs") (auto simp: sort_and_clamp_cases)

lemma sort_and_clamp_length: "length (sort_and_clamp cs) = length cs"
proof -
  have "length (sort_and_clamp cs) = length (sort_key start_time cs)"
    by (cases "sort_key start_time cs") (auto simp: sort_and_clamp_cases)
  then show ?thesis by simp
qed

lemma sort_and_clamp_fixed:
  assumes "sorted (map start_time cs)" and "cs = [] \<or> start_time (hd cs) \<le> 0"
  shows "sort_and_clamp cs = cs"
proof -
  from assms(1) have "sort_key start_time cs = cs" by (rule sort_key_id_if_sorted)
  with assms(2) show ?thesis
    by (cases cs) (auto simp: sort_and_clamp_cases)
qed

text \<open>
  C6. Sorting the chapters by \<open>start_time\<close> and clamping the first one is idempotent:
  doing it twice gives the same list as doing it once.
\<close>

theorem sort_and_clamp_idempotent:
  "sort_and_clamp (sort_and_clamp cs) = sort_and_clamp cs"
proof (rule sort_and_clamp_fixed)
  show "sorted (map start_time (sort_and_clamp cs))" by (rule sorted_sort_and_clamp)
  show "sort_and_clamp cs = [] \<or> start_time (hd (sort_and_clamp cs)) \<le> 0"
    using sort_and_clamp_head_le [of cs] by blast
qed

lemma sort_and_clamp_head_zero:
  assumes "cs \<noteq> []" and "\<forall>c \<in> set cs. 0 \<le> start_time c"
  shows "start_time (hd (sort_and_clamp cs)) = 0"
proof (cases "sort_key start_time cs")
  case Nil
  then have "length (sort_key start_time cs) = 0" by simp
  with assms(1) show ?thesis by simp
next
  case (Cons c rest)
  then have "c \<in> set (sort_key start_time cs)" by simp
  then have "c \<in> set cs" by simp
  with assms(2) have "0 \<le> start_time c" by blast
  with Cons show ?thesis
    by (auto simp: sort_and_clamp_cases)
qed

text \<open>
  What the post-processing of \<open>generate_chapters\<close> does on finite start times: it sorts
  the chapters by \<open>start_time\<close> with a stable sort (a sorted permutation in which
  chapters of equal \<open>start_time\<close> keep their order) and then, when the list is not empty
  and its first \<open>start_time\<close> is greater than 0, sets that one \<open>start_time\<close> to 0.
  The result is non-decreasing by \<open>start_time\<close>, has the length of the input, and every
  chapter after the first is the one the sort put there. For a non-empty list without
  negative \<open>start_time\<close>s the first \<open>start_time\<close> of the result is 0.
\<close>

lemma sort_and_clamp_normalizes:
  "sorted (map start_time (sort_key start_time cs))
   \<and> mset (sort_key start_time cs) = mset cs
   \<and> (\<forall>k. filter (\<lambda>c. start_time c = k) (sort_key start_time cs)
            = filter (\<lambda>c. start_time c = k) cs)
   \<and> sort_and_clamp cs =
        (case sort_key start_time cs of
           [] \<Rightarrow> []
         | c # rest \<Rightarrow> (if 0 < start_time c then c\<lparr>start_time := 0\<rparr> # rest else c # rest))
   \<and> sorted (map start_time (sort_and_clamp cs))
   \<and> length (sort_and_clamp cs) = length cs
   \<and> tl (sort_and_clamp cs) = tl (sort_key start_time cs)
   \<and> (cs \<noteq> [] \<and> (\<forall>c \<in> set cs. 0 \<le> start_time c)
        \<longrightarrow> start_time (hd (sort_and_clamp cs)) = 0)"
proof (intro conjI allI impI)
  show "sorted (map start_time (sort_key start_time cs))" by (rule sorted_sort_key)
  show "mset (sort_key start_time cs) = mset cs" by (rule mset_sort)
  show "filter (\<lambda>c. start_time c = k) (sort_key start_time cs)
            = filter (\<lambda>c. start_time c = k) cs" for k
    by (rule sort_key_stable)
  show "sort_and_clamp cs =
        (case sort_key start_time cs of
           [] \<Rightarrow> []
         | c # rest \<Rightarrow> (if 0 < start_time c then c\<lparr>start_time := 0\<rparr> # rest else c # rest))"
    by (rule sort_and_clamp_cases)
  show "sorted (map start_time (sort_and_clamp cs))" by (rule sorted_sort_and_clamp)
  show "length (sort_and_clamp cs) = length cs" by (rule sort_and_clamp_length)
  show "tl (sort_and_clamp cs) = tl (sort_key start_time cs)" by (rule sort_and_clamp_tl)
  show "start_time (hd (sort_and_clamp cs)) = 0"
    if "cs \<noteq> [] \<and> (\<forall>c \<in> set cs. 0 \<le> start_time c)"
    using that sort_and_clamp_head_zero [of cs] by blast
qed

text \<open>
  C1. The source states the purpose of the clamp in its comment, \<open>Ensure first chapter
  starts at 0\<close>, and the first \<open>start_time\<close> after the normalization is to be exactly
  0.0. The guard of the clamp is \<open>start_time > 0\<close>, so a negative first \<open>start_time\<close>
  is left as it is: for chapters at 10 and at -5 the normalization returns the chapter at
  -5 first, unchanged, and the first \<open>start_time\<close> is not 0.
\<close>

theorem sort_and_clamp_first_negative:
  "sort_and_clamp
      [\<lparr>start_time = 10, ch_title = ''B'', ch_description = []\<rparr>,
       \<lparr>start_time = - 5, ch_title = ''A'', ch_description = []\<rparr>]
     = [\<lparr>start_time = - 5, ch_title = ''A'', ch_description = []\<rparr>,
        \<lparr>start_time = 10, ch_title = ''B'', ch_description = []\<rparr>]
   \<and> start_time (hd (sort_and_clamp
      [\<lparr>start_time = 10, ch_title = ''B'', ch_description = []\<rparr>,
       \<lparr>start_time = - 5, ch_title = ''A'', ch_description = []\<rparr>])) \<noteq> 0"
  by (simp add: sort_and_clamp_cases)

section \<open>Responses that are not JSON\<close>









lemma parse_titles_example:
  "parse_titles sample_lib example_response = Inr [\<lparr>title = ''A'', thumbnail_text = [], reasoning = []\<rparr>]"
proof -
  have "extract_json example_response = [CHR ''['', CHR ''{'', CHR 0x22, CHR ''t'', CHR ''i'', CHR ''t'',
      CHR ''l'', CHR ''e'', CHR 0x22, CHR '':'', CHR 0x22, CHR ''A'', CHR 0x22, CHR ''}'', CHR '']'']"
    by (simp add: extract_json_def example_response_def)
  then show ?thesis
    by (simp add: parse_titles_def sample_lib_def make_title_def)
qed

section \<open>The output writer\<close>

















end
